theory Spec2Isabelle
  imports Complex_Main "HOL-Library.Sublist"
begin

section \<open>The Volt Typhoon timeline engine (class VoltTyphoonTimeline)\<close>

text \<open>
  A shallow embedding of the replay engine of \<^verbatim>\<open>volt-typhoon-timeline.js\<close>: the playback
  clock (\<^verbatim>\<open>update\<close>), the event gate (\<^verbatim>\<open>processEvents\<close>), the flow choreographer
  (\<^verbatim>\<open>createPacketFlow\<close>, \<^verbatim>\<open>createSinglePacket\<close>, \<^verbatim>\<open>animateMultiHop\<close>), the info boxes
  (\<^verbatim>\<open>highlightZeroDay\<close> and its siblings), the node registry (\<^verbatim>\<open>getNodePosition\<close>) and
  \<^verbatim>\<open>restart\<close>.

  Conventions of the model.
  \<^item> JavaScript numbers are IEEE doubles; times are modelled by exact rationals, so the
    rounding of a product such as \<^verbatim>\<open>deltaTime * playbackSpeed * 360 * 1000\<close> is idealised.
  \<^item> An event object is identified by its index in \<^verbatim>\<open>this.data\<close>; the array is sorted once
    by the constructor and never reordered, only the \<^verbatim>\<open>processed\<close> flag of an element changes.
    The engine only ever passes on an index it has taken from \<^verbatim>\<open>availableEvents\<close>, which is
    in range.
  \<^item> \<^verbatim>\<open>setTimeout\<close> is an explicit queue of pending callbacks with their due wall-clock
    time in milliseconds; \<open>elapse\<close> lets wall-clock time pass and runs the callbacks that are
    due. The source never calls \<^verbatim>\<open>clearTimeout\<close>.
  \<^item> Three.js meshes, DOM text and the camera tweens are presentation; of them the model
    keeps the tween plan of a packet, the list of visible info boxes and the last camera
    command.
\<close>

subsection \<open>Data model\<close>

record event =
  timestamp :: int               \<comment> \<open>\<^verbatim>\<open>new Date(event.timestamp).getTime()\<close>, milliseconds\<close>
  severity :: int
  category :: string
  attack_type :: string
  source_ip :: string
  destination_ip :: string
  success :: bool                \<comment> \<open>optional in the data; absent is falsy\<close>
  stage :: int
  proxy_chain :: "string list"   \<comment> \<open>optional in the data; absent and empty both give \<open>[]\<close>\<close>
  description :: string          \<comment> \<open>optional in the data; absent and empty both give \<open>[]\<close>\<close>
  processed :: bool

text \<open>
  A \<^verbatim>\<open>THREE.Vector3\<close>. The fallback of \<^verbatim>\<open>getNodePosition\<close>,
  \<^verbatim>\<open>new THREE.Vector3((Math.random() - 0.5) * 200, 50, (Math.random() - 0.5) * 200)\<close>, is kept
  symbolic: the two random draws are not modelled and nothing below depends on them.
\<close>

datatype position = Vector3 int int int | RandomVector3

text \<open>The steps a packet's tween timeline is built from, in the order they play.\<close>

datatype anim_step =
    DrawTrail position position   \<comment> \<open>the line segment of a hop\<close>
  | MoveTo position rat           \<comment> \<open>\<^verbatim>\<open>gsap.to(packet.position, ...)\<close> with its duration in seconds\<close>
  | HopEffect position            \<comment> \<open>\<^verbatim>\<open>createHopEffect\<close>: the pulse at an intermediate hop\<close>
  | PauseFor rat
  | ImpactEffect position         \<comment> \<open>\<^verbatim>\<open>createImpactEffect\<close>\<close>
  | MarkCompromised string        \<comment> \<open>\<^verbatim>\<open>markNodeCompromised\<close>\<close>

record flow =
  flow_event :: nat
  lifetime :: rat
  age :: rat
  tween :: "anim_step list"

text \<open>The info boxes that pause playback, one constructor for each \<^verbatim>\<open>highlight...\<close> function.\<close>

datatype info_box = ZeroDay | NTDSExtraction | CriticalInfrastructure | OTCompromise
  | Exfiltration | RDPCredentials | CriticalAccess

datatype camera_cmd = InitialPose | StagePose int | FollowEvent nat

text \<open>The closures handed to \<^verbatim>\<open>setTimeout\<close>.\<close>

datatype callback =
    FollowAttackLater nat                     \<comment> \<open>\<^verbatim>\<open>processEvents\<close>: delayed \<^verbatim>\<open>followAttack(nextEvent)\<close>\<close>
  | ResetCriticalAccessShown                  \<comment> \<open>\<^verbatim>\<open>createPacketFlow\<close>: \<^verbatim>\<open>criticalAccessShown = false\<close>\<close>
  | ResetOtShown                              \<comment> \<open>\<^verbatim>\<open>createPacketFlow\<close>: \<^verbatim>\<open>otShown = false\<close>\<close>
  | SpawnPacket nat position position bool    \<comment> \<open>\<^verbatim>\<open>createSinglePacket(event, sourcePos, destPos, i === 0)\<close>\<close>
  | DismissBox info_box bool                  \<comment> \<open>the resume closure of an info box, with its \<^verbatim>\<open>wasPlaying\<close>\<close>

record timeline =
  data :: "event list"
  currentTime :: rat
  playbackSpeed :: rat
  isPlaying :: bool
  activeFlows :: "flow list"
  nodeMap :: "(string \<times> position) list"   \<comment> \<open>a \<^verbatim>\<open>Map\<close>, in insertion order\<close>
  lastEventProcessedTime :: rat
  lastProcessedEventType :: "string option"  \<comment> \<open>\<^verbatim>\<open>null\<close> is \<open>None\<close>\<close>
  currentStage :: int
  startTime :: rat
  endTime :: rat
  duration :: rat
  lastFollowedStage :: "int option"          \<comment> \<open>\<^verbatim>\<open>undefined\<close> is \<open>None\<close>\<close>
  rdpExplained :: bool
  cveExplained :: bool
  criticalAccessShown :: bool
  ntdsShown :: bool
  otShown :: bool
  gsapPaused :: bool                         \<comment> \<open>\<^verbatim>\<open>gsap.globalTimeline\<close> paused\<close>
  infoBoxes :: "info_box list"               \<comment> \<open>the info boxes in the document\<close>
  camera :: camera_cmd                       \<comment> \<open>the last pose the camera was sent to\<close>
  timers :: "(nat \<times> callback) list"         \<comment> \<open>pending \<^verbatim>\<open>setTimeout\<close> callbacks with their due time\<close>
  wallClock :: nat                           \<comment> \<open>real time in milliseconds\<close>
  packetFlowCalls :: "nat list"              \<comment> \<open>trace: the events handed to \<^verbatim>\<open>createPacketFlow\<close>\<close>

subsection \<open>Node registry\<close>

text \<open>\<^verbatim>\<open>createNetworkInfrastructure\<close>: the fifteen nodes, in the order \<^verbatim>\<open>createNode\<close> registers them.\<close>

definition createNetworkInfrastructure :: "(string \<times> position) list" where
  "createNetworkInfrastructure =
    [(''45.76.128.0'', Vector3 (-1000) 50 0),
     (''103.56.54.0'', Vector3 (-800) 50 0),
     (''203.119.88.0'', Vector3 (-600) 50 0),
     (''202.181.24.0'', Vector3 (-400) 50 0),
     (''192.168.100.10'', Vector3 (-200) 50 0),
     (''192.168.100.40'', Vector3 0 50 0),
     (''192.168.100.50'', Vector3 200 100 0),
     (''192.168.100.20'', Vector3 0 50 (-150)),
     (''192.168.100.30'', Vector3 0 50 (-300)),
     (''192.168.100.60'', Vector3 0 50 150),
     (''10.1.1.10'', Vector3 400 50 0),
     (''10.1.1.20'', Vector3 600 50 (-100)),
     (''10.1.1.30'', Vector3 600 50 0),
     (''10.1.1.40'', Vector3 600 50 100),
     (''10.1.1.50'', Vector3 800 50 0)]"

text \<open>\<^verbatim>\<open>String.prototype.split\<close> on one separator character and \<^verbatim>\<open>Array.prototype.join\<close>.\<close>

fun split_on :: "char \<Rightarrow> string \<Rightarrow> string list" where
  "split_on c [] = [[]]"
| "split_on c (x # xs) =
     (if x = c then [] # split_on c xs
      else (case split_on c xs of [] \<Rightarrow> [[x]] | w # ws \<Rightarrow> (x # w) # ws))"

fun join_with :: "string \<Rightarrow> string list \<Rightarrow> string" where
  "join_with sep [] = []"
| "join_with sep [w] = w"
| "join_with sep (w # ws) = w @ sep @ join_with sep ws"

text \<open>\<^verbatim>\<open>nodeIp.split('.').slice(0, 3).join('.')\<close>\<close>

definition octets3 :: "string \<Rightarrow> string" where
  "octets3 nodeIp = join_with ''.'' (take 3 (split_on (CHR ''.'') nodeIp))"

text \<open>
  \<^verbatim>\<open>getNodePosition(ip)\<close>. The result type has \<open>None\<close> for \<^verbatim>\<open>null\<close>/\<^verbatim>\<open>undefined\<close>, which
  the callers test for (\<^verbatim>\<open>if (!sourcePos || !destPos) return\<close>).
\<close>

definition getNodePosition :: "(string \<times> position) list \<Rightarrow> string \<Rightarrow> position option" where
  "getNodePosition nm ip =
     (case map_of nm ip of
        Some p \<Rightarrow> Some p
      | None \<Rightarrow>
         (case find (\<lambda>(nodeIp, nodeData). prefix (octets3 nodeIp) ip) nm of
            Some (nodeIp, p) \<Rightarrow> Some p
          | None \<Rightarrow> Some RandomVector3))"

subsection \<open>Flow choreographer\<close>

text \<open>The waypoint list \<^verbatim>\<open>fullPath\<close> of \<^verbatim>\<open>animateMultiHop\<close>.\<close>

definition buildFullPath :: "event \<Rightarrow> string list" where
  "buildFullPath e =
     (let fullPath = (if proxy_chain e \<noteq> [] then proxy_chain e else [source_ip e])
      in if destination_ip e \<in> set fullPath then fullPath else fullPath @ [destination_ip e])"

text \<open>One round of the loop \<^verbatim>\<open>for (let i = 1; i < fullPath.length; i++)\<close>.\<close>

definition hopSteps :: "(string \<times> position) list \<Rightarrow> string list \<Rightarrow> nat \<Rightarrow> anim_step list" where
  "hopSteps nm fullPath i =
     (case (getNodePosition nm (fullPath ! (i - 1)), getNodePosition nm (fullPath ! i)) of
        (Some fromPos, Some toPos) \<Rightarrow>
          [DrawTrail fromPos toPos, MoveTo toPos (3 / 2)]
          @ (if i < length fullPath - 1 then [HopEffect toPos, PauseFor (3 / 10)] else [])
      | _ \<Rightarrow> [])"

text \<open>The closing \<^verbatim>\<open>timeline.call\<close> of \<^verbatim>\<open>animateMultiHop\<close>.\<close>

definition finalImpact :: "(string \<times> position) list \<Rightarrow> event \<Rightarrow> bool \<Rightarrow> anim_step list" where
  "finalImpact nm e isFirst =
     (case getNodePosition nm (destination_ip e) of
        Some destPos \<Rightarrow>
          (if success e \<and> isFirst
           then [ImpactEffect destPos, MarkCompromised (destination_ip e)] else [])
      | None \<Rightarrow> [])"

definition animateMultiHop :: "(string \<times> position) list \<Rightarrow> event \<Rightarrow> bool \<Rightarrow> anim_step list" where
  "animateMultiHop nm e isFirst =
     (let fullPath = buildFullPath e
      in concat (map (hopSteps nm fullPath) [1..<length fullPath]) @ finalImpact nm e isFirst)"

text \<open>\<^verbatim>\<open>createSinglePacket(event, sourcePos, destPos, isFirst)\<close>\<close>

definition createSinglePacket :: "nat \<Rightarrow> position \<Rightarrow> position \<Rightarrow> bool \<Rightarrow> timeline \<Rightarrow> timeline" where
  "createSinglePacket i sourcePos destPos isFirst s =
     (let e = data s ! i;
          tw = (if proxy_chain e \<noteq> [] then animateMultiHop (nodeMap s) e isFirst
                else MoveTo destPos 4 #
                  (if success e \<and> isFirst
                   then [ImpactEffect destPos, MarkCompromised (destination_ip e)] else []))
      in s\<lparr>activeFlows := activeFlows s
             @ [\<lparr>flow_event = i, lifetime = 3, age = 0, tween = tw\<rparr>]\<rparr>)"

text \<open>The packet count of \<^verbatim>\<open>createPacketFlow\<close>.\<close>

definition packetCount :: "event \<Rightarrow> nat" where
  "packetCount e =
     (if attack_type e = ''lotl_discovery'' \<or> attack_type e = ''wmi_lateral_movement'' then 3
      else if attack_type e = ''rdp_lateral_movement'' then 2
      else if category e = ''credential_access'' then 5
      else 1)"

subsection \<open>Timers and info boxes\<close>

definition setTimeout :: "callback \<Rightarrow> nat \<Rightarrow> timeline \<Rightarrow> timeline" where
  "setTimeout f delay s = s\<lparr>timers := timers s @ [(wallClock s + delay, f)]\<rparr>"

text \<open>The delay after which an info box resumes playback, and its CSS \<^verbatim>\<open>z-index\<close>.\<close>

fun box_delay :: "info_box \<Rightarrow> nat" where
  "box_delay ZeroDay = 7000"
| "box_delay NTDSExtraction = 6000"
| "box_delay CriticalInfrastructure = 8000"
| "box_delay OTCompromise = 6000"
| "box_delay Exfiltration = 6000"
| "box_delay RDPCredentials = 6000"
| "box_delay CriticalAccess = 7000"

fun box_zIndex :: "info_box \<Rightarrow> nat" where
  "box_zIndex ZeroDay = 2500"
| "box_zIndex NTDSExtraction = 2400"
| "box_zIndex CriticalInfrastructure = 2500"
| "box_zIndex OTCompromise = 2400"
| "box_zIndex Exfiltration = 2400"
| "box_zIndex RDPCredentials = 2300"
| "box_zIndex CriticalAccess = 3000"

text \<open>
  The common body of \<^verbatim>\<open>highlightZeroDay\<close>, \<^verbatim>\<open>highlightNTDSExtraction\<close>,
  \<^verbatim>\<open>highlightCriticalInfrastructure\<close>, \<^verbatim>\<open>highlightOTCompromise\<close>, \<^verbatim>\<open>highlightExfiltration\<close>,
  \<^verbatim>\<open>explainRDPCredentials\<close> and \<^verbatim>\<open>highlightCriticalAccess\<close>: snapshot \<^verbatim>\<open>isPlaying\<close>, pause,
  show the box, and schedule the resume closure.
\<close>

definition highlight :: "info_box \<Rightarrow> timeline \<Rightarrow> timeline" where
  "highlight b s =
     (let wasPlaying = isPlaying s
      in setTimeout (DismissBox b wasPlaying) (box_delay b)
           (s\<lparr>isPlaying := False, gsapPaused := True, infoBoxes := infoBoxes s @ [b]\<rparr>))"

definition followAttack :: "nat \<Rightarrow> timeline \<Rightarrow> timeline" where
  "followAttack i s =
     (case (getNodePosition (nodeMap s) (source_ip (data s ! i)),
            getNodePosition (nodeMap s) (destination_ip (data s ! i))) of
        (Some sourcePos, Some destPos) \<Rightarrow> s\<lparr>camera := FollowEvent i\<rparr>
      | _ \<Rightarrow> s)"

text \<open>
  Running a due callback. The resume closure of an info box sets \<^verbatim>\<open>isPlaying\<close> only when its
  snapshot was true, then fades the box out (the one-second fade is not modelled: the box
  leaves the list at once).
\<close>

fun runCallback :: "callback \<Rightarrow> timeline \<Rightarrow> timeline" where
  "runCallback (FollowAttackLater i) s = followAttack i s"
| "runCallback ResetCriticalAccessShown s = s\<lparr>criticalAccessShown := False\<rparr>"
| "runCallback ResetOtShown s = s\<lparr>otShown := False\<rparr>"
| "runCallback (SpawnPacket i sourcePos destPos isFirst) s =
     createSinglePacket i sourcePos destPos isFirst s"
| "runCallback (DismissBox b wasPlaying) s =
     (let s1 = (if wasPlaying then s\<lparr>isPlaying := True, gsapPaused := False\<rparr> else s)
      in s1\<lparr>infoBoxes := remove1 b (infoBoxes s1)\<rparr>)"

text \<open>
  Real time passes: the callbacks that have become due run in the order of their due time,
  those with the same due time in the order they were scheduled. No callback of this
  program schedules another one.
\<close>

definition elapse :: "nat \<Rightarrow> timeline \<Rightarrow> timeline" where
  "elapse ms s =
     (let t = wallClock s + ms;
          ready = filter (\<lambda>tm. fst tm \<le> t) (sort_key fst (timers s));
          rest = filter (\<lambda>tm. \<not> fst tm \<le> t) (timers s)
      in foldl (\<lambda>s' tm. runCallback (snd tm) s') (s\<lparr>wallClock := t, timers := rest\<rparr>) ready)"

subsection \<open>Dispatch of an event to the flow choreographer\<close>

text \<open>\<^verbatim>\<open>String.prototype.includes\<close>\<close>

fun includes_str :: "string \<Rightarrow> string \<Rightarrow> bool" where
  "includes_str [] sub = (sub = [])"
| "includes_str (c # cs) sub = (prefix sub (c # cs) \<or> includes_str cs sub)"

text \<open>The loop of \<^verbatim>\<open>createPacketFlow\<close> that schedules the staggered packets.\<close>

definition spawnPackets :: "nat \<Rightarrow> position \<Rightarrow> position \<Rightarrow> nat \<Rightarrow> timeline \<Rightarrow> timeline" where
  "spawnPackets i sourcePos destPos n s =
     foldl (\<lambda>s' k. setTimeout (SpawnPacket i sourcePos destPos (k = 0)) (k * 200) s') s [0..<n]"

text \<open>
  \<^verbatim>\<open>createPacketFlow(event)\<close>. The call is recorded in the trace on entry.
  \<^verbatim>\<open>activateConnectionPath\<close> only brightens a connection line and is left out.
\<close>

definition createPacketFlow :: "nat \<Rightarrow> timeline \<Rightarrow> timeline" where
  "createPacketFlow i s0 =
     (let s = s0\<lparr>packetFlowCalls := packetFlowCalls s0 @ [i]\<rparr>;
          e = data s ! i
      in case (getNodePosition (nodeMap s) (source_ip e),
               getNodePosition (nodeMap s) (destination_ip e)) of
           (Some sourcePos, Some destPos) \<Rightarrow>
             (let s1 = (if category e = ''credential_access'' \<and> \<not> criticalAccessShown s
                        then setTimeout ResetCriticalAccessShown 10000
                               (highlight CriticalAccess (s\<lparr>criticalAccessShown := True\<rparr>))
                        else s);
                  s2 = (if attack_type e = ''credential_harvesting'' \<and> description e \<noteq> []
                           \<and> includes_str (description e) ''NTDS.dit'' \<and> \<not> ntdsShown s1
                        then highlight NTDSExtraction (s1\<lparr>ntdsShown := True\<rparr>)
                        else s1);
                  s3 = (if attack_type e = ''ot_system_access'' \<and> \<not> otShown s2
                        then setTimeout ResetOtShown 15000
                               (highlight CriticalInfrastructure (s2\<lparr>otShown := True\<rparr>))
                        else s2);
                  s4 = (if attack_type e = ''multi_hop_exfiltration'' \<and> stage e = 5
                        then highlight Exfiltration s3 else s3)
              in spawnPackets i sourcePos destPos (packetCount e) s4)
         | _ \<Rightarrow> s)"

text \<open>
  The body of \<^verbatim>\<open>if (nextEvent) { ... }\<close> in \<^verbatim>\<open>processEvents\<close>, block by block and without
  the text written to the technique and action panels. \<^verbatim>\<open>nextEvent\<close> is the element \<open>i\<close>
  of \<^verbatim>\<open>this.data\<close>.
\<close>

definition markProcessed :: "nat \<Rightarrow> rat \<Rightarrow> timeline \<Rightarrow> timeline" where
  "markProcessed i currentTimestamp s =
     s\<lparr>lastEventProcessedTime := currentTimestamp,
       lastProcessedEventType := Some (attack_type (data s ! i)),
       data := (data s)[i := (data s ! i)\<lparr>processed := True\<rparr>]\<rparr>"

text \<open>\<^verbatim>\<open>// Handle zero-day exploit info box first\<close>\<close>

definition zeroDayBox :: "nat \<Rightarrow> timeline \<Rightarrow> timeline" where
  "zeroDayBox i s =
     (if attack_type (data s ! i) = ''zero_day_exploit'' \<and> \<not> cveExplained s
      then highlight ZeroDay (s\<lparr>cveExplained := True\<rparr>) else s)"

text \<open>\<^verbatim>\<open>// Delay camera follow for major events to let the packet animation start first\<close>\<close>

definition cameraFollow :: "nat \<Rightarrow> timeline \<Rightarrow> timeline" where
  "cameraFollow i s =
     (let e = data s ! i
      in if Some (stage e) \<noteq> lastFollowedStage s
            \<and> (9 \<le> severity e \<or> attack_type e = ''ot_system_access'')
         then (if attack_type e = ''zero_day_exploit''
               then setTimeout (FollowAttackLater i) 2000 s
               else followAttack i s)\<lparr>lastFollowedStage := Some (stage e)\<rparr>
         else s)"

definition dispatch :: "nat \<Rightarrow> rat \<Rightarrow> timeline \<Rightarrow> timeline" where
  "dispatch i currentTimestamp s =
     cameraFollow i (zeroDayBox i (createPacketFlow i (markProcessed i currentTimestamp s)))"

subsection \<open>Event gate\<close>

text \<open>\<^verbatim>\<open>availableEvents\<close>, \<^verbatim>\<open>currentStageEvents\<close> and \<^verbatim>\<open>sameTypeEvents\<close>, as lists of indices.\<close>

definition availableEvents :: "rat \<Rightarrow> timeline \<Rightarrow> nat list" where
  "availableEvents currentTimestamp s =
     filter (\<lambda>i. of_int (timestamp (data s ! i)) \<le> currentTimestamp \<and> \<not> processed (data s ! i))
       [0..<length (data s)]"

definition currentStageEvents :: "rat \<Rightarrow> timeline \<Rightarrow> nat list" where
  "currentStageEvents currentTimestamp s =
     filter (\<lambda>i. stage (data s ! i) = currentStage s) (availableEvents currentTimestamp s)"

definition sameTypeEvents :: "rat \<Rightarrow> timeline \<Rightarrow> nat list" where
  "sameTypeEvents currentTimestamp s =
     filter (\<lambda>i. Some (attack_type (data s ! i)) = lastProcessedEventType s)
       (currentStageEvents currentTimestamp s)"

text \<open>The choice of \<^verbatim>\<open>nextEvent\<close>; \<open>None\<close> when \<^verbatim>\<open>availableEvents\<close> is empty.\<close>

definition selectNext :: "rat \<Rightarrow> timeline \<Rightarrow> nat option" where
  "selectNext currentTimestamp s =
     (case availableEvents currentTimestamp s of
        [] \<Rightarrow> None
      | a # as \<Rightarrow>
         (case currentStageEvents currentTimestamp s of
            c # cs \<Rightarrow>
              (case sameTypeEvents currentTimestamp s of
                 m # ms \<Rightarrow> Some m
               | [] \<Rightarrow> Some c)
          | [] \<Rightarrow> Some a))"

text \<open>
  \<^verbatim>\<open>processEvents(currentTimestamp)\<close>. \<^verbatim>\<open>minEventInterval\<close> is 500; the test
  \<^verbatim>\<open>this.lastEventProcessedTime && ...\<close> is skipped while the field is 0.
\<close>

definition processEvents :: "rat \<Rightarrow> timeline \<Rightarrow> timeline" where
  "processEvents currentTimestamp s =
     (if lastEventProcessedTime s \<noteq> 0 \<and> currentTimestamp - lastEventProcessedTime s < 500
      then s
      else (case selectNext currentTimestamp s of
              None \<Rightarrow> s
            | Some nextEvent \<Rightarrow> dispatch nextEvent currentTimestamp s))"

subsection \<open>Playback clock\<close>

text \<open>The \<^verbatim>\<open>start\<close> and \<^verbatim>\<open>end\<close> hours of \<^verbatim>\<open>this.stages\<close>.\<close>

definition stages :: "(rat \<times> rat) list" where
  "stages = [(0, 7), (7, 24), (24, 48), (48, 60), (60, 72)]"

text \<open>\<^verbatim>\<open>Array.prototype.findIndex\<close>: the index of the first match, or \<open>-1\<close>.\<close>

fun findIndex :: "('a \<Rightarrow> bool) \<Rightarrow> 'a list \<Rightarrow> int" where
  "findIndex P [] = - 1"
| "findIndex P (x # xs) =
     (if P x then 0 else (let r = findIndex P xs in if r < 0 then - 1 else r + 1))"

text \<open>\<^verbatim>\<open>updateFlows(deltaTime)\<close>: every flow ages, and a flow older than its lifetime is removed.\<close>

definition updateFlows :: "rat \<Rightarrow> timeline \<Rightarrow> timeline" where
  "updateFlows deltaTime s =
     s\<lparr>activeFlows :=
         filter (\<lambda>f. \<not> lifetime f < age f)
           (map (\<lambda>f. f\<lparr>age := age f + deltaTime\<rparr>) (activeFlows s))\<rparr>"

text \<open>\<^verbatim>\<open>onStageChange(stage)\<close>: the camera moves to the pose of the new stage.\<close>

definition onStageChange :: "int \<Rightarrow> timeline \<Rightarrow> timeline" where
  "onStageChange n s = s\<lparr>camera := StagePose n\<rparr>"

text \<open>\<^verbatim>\<open>update(deltaTime)\<close>; \<^verbatim>\<open>updateUI\<close> writes text only.\<close>

definition update :: "rat \<Rightarrow> timeline \<Rightarrow> timeline" where
  "update deltaTime s =
     (if \<not> isPlaying s then s
      else
        (let s1 = s\<lparr>currentTime := currentTime s + deltaTime * playbackSpeed s * 360 * 1000\<rparr>;
             s2 = (if duration s1 < currentTime s1
                   then s1\<lparr>currentTime := duration s1, isPlaying := False\<rparr> else s1);
             currentHour = currentTime s2 / (3600 * 1000);
             newStage = findIndex (\<lambda>st. fst st \<le> currentHour \<and> currentHour < snd st) stages;
             s3 = (if newStage \<noteq> currentStage s2 \<and> 0 \<le> newStage
                   then onStageChange newStage (s2\<lparr>currentStage := newStage\<rparr>) else s2);
             currentTimestamp = startTime s3 + currentTime s3;
             s4 = processEvents currentTimestamp s3
         in updateFlows deltaTime s4))"

definition togglePlayback :: "timeline \<Rightarrow> timeline" where
  "togglePlayback s = s\<lparr>isPlaying := \<not> isPlaying s\<rparr>"

definition setSpeed :: "rat \<Rightarrow> timeline \<Rightarrow> timeline" where
  "setSpeed speed s = s\<lparr>playbackSpeed := speed\<rparr>"

subsection \<open>Restart\<close>

text \<open>
  \<^verbatim>\<open>cleanupAllInfoBoxes\<close>. Its attribute selectors look for the titles in the \<^verbatim>\<open>style\<close>
  attribute and match nothing; the boxes are found by their \<^verbatim>\<open>z-index\<close>.
\<close>

definition cleanupAllInfoBoxes :: "timeline \<Rightarrow> timeline" where
  "cleanupAllInfoBoxes s =
     s\<lparr>infoBoxes := filter (\<lambda>b. box_zIndex b \<notin> {2300, 2400, 2500, 2999, 3000}) (infoBoxes s)\<rparr>"

definition restart :: "timeline \<Rightarrow> timeline" where
  "restart s =
     (let s1 = cleanupAllInfoBoxes s
      in s1\<lparr>currentTime := 0,
            currentStage := 0,
            isPlaying := True,
            lastEventProcessedTime := 0,
            lastProcessedEventType := None,
            lastFollowedStage := None,
            rdpExplained := False,
            cveExplained := False,
            criticalAccessShown := False,
            ntdsShown := False,
            otShown := False,
            gsapPaused := False,
            activeFlows := [],
            data := map (\<lambda>e. e\<lparr>processed := False\<rparr>) (data s1),
            camera := InitialPose\<rparr>)"

subsection \<open>Construction and runs\<close>

text \<open>
  The constructor sorts the data by timestamp (\<^verbatim>\<open>Array.prototype.sort\<close> is stable, as
  \<open>sort_key\<close> is) and reads \<^verbatim>\<open>this.data[0].timestamp\<close>, which throws on an empty array.
\<close>

definition construct :: "event list \<Rightarrow> timeline option" where
  "construct d =
     (case sort_key timestamp d of
        [] \<Rightarrow> None
      | e0 # es \<Rightarrow>
          Some \<lparr>data = e0 # es,
                currentTime = 0,
                playbackSpeed = 1,
                isPlaying = True,
                activeFlows = [],
                nodeMap = createNetworkInfrastructure,
                lastEventProcessedTime = 0,
                lastProcessedEventType = None,
                currentStage = 0,
                startTime = of_int (timestamp e0),
                endTime = of_int (timestamp e0) + 72 * 3600 * 1000,
                duration = (of_int (timestamp e0) + 72 * 3600 * 1000) - of_int (timestamp e0),
                lastFollowedStage = None,
                rdpExplained = False,
                cveExplained = False,
                criticalAccessShown = False,
                ntdsShown = False,
                otShown = False,
                gsapPaused = False,
                infoBoxes = [],
                camera = InitialPose,
                timers = [],
                wallClock = 0,
                packetFlowCalls = []\<rparr>)"

text \<open>What can happen to the engine: a frame, real time passing, and the three buttons.\<close>

datatype action = Update rat | Elapse nat | TogglePlayback | SetSpeed rat | Restart

fun step :: "action \<Rightarrow> timeline \<Rightarrow> timeline" where
  "step (Update deltaTime) s = update deltaTime s"
| "step (Elapse ms) s = elapse ms s"
| "step TogglePlayback s = togglePlayback s"
| "step (SetSpeed speed) s = setSpeed speed s"
| "step Restart s = restart s"

definition run :: "action list \<Rightarrow> timeline \<Rightarrow> timeline" where
  "run acts s = foldl (\<lambda>s' a. step a s') s acts"

subsection \<open>Notions used in the statements\<close>

text \<open>Reading a tween plan: where the hop pulses and the impact effects play, and which
  nodes are marked compromised.\<close>

fun hop_positions :: "anim_step list \<Rightarrow> position list" where
  "hop_positions [] = []"
| "hop_positions (HopEffect p # xs) = p # hop_positions xs"
| "hop_positions (x # xs) = hop_positions xs"

fun impact_positions :: "anim_step list \<Rightarrow> position list" where
  "impact_positions [] = []"
| "impact_positions (ImpactEffect p # xs) = p # impact_positions xs"
| "impact_positions (x # xs) = impact_positions xs"

fun compromised_marks :: "anim_step list \<Rightarrow> string list" where
  "compromised_marks [] = []"
| "compromised_marks (MarkCompromised ip # xs) = ip # compromised_marks xs"
| "compromised_marks (x # xs) = compromised_marks xs"

fun is_spawn :: "callback \<Rightarrow> bool" where
  "is_spawn (SpawnPacket i a b isFirst) = True"
| "is_spawn c = False"

text \<open>The pending packet spawns among the timers.\<close>

definition pendingSpawns :: "timeline \<Rightarrow> (nat \<times> callback) list" where
  "pendingSpawns s = filter (\<lambda>tm. is_spawn (snd tm)) (timers s)"

subsection \<open>Sample data\<close>

text \<open>Events shaped like those of \<^verbatim>\<open>scripts/generate-volt-typhoon-data.js\<close>, with timestamps
  counted from the first event, and the engines constructed from them.\<close>

definition port_scan_event :: event where
  "port_scan_event =
     \<lparr>timestamp = 0, severity = 3, category = ''reconnaissance'', attack_type = ''port_scan'',
      source_ip = ''45.76.128.0'', destination_ip = ''192.168.100.10'', success = False,
      stage = 1, proxy_chain = [], description = ''Network Service Discovery'',
      processed = False\<rparr>"

definition zero_day_event :: event where
  "zero_day_event =
     \<lparr>timestamp = 50, severity = 9, category = ''exploitation'',
      attack_type = ''zero_day_exploit'',
      source_ip = ''45.76.128.0'', destination_ip = ''192.168.100.10'', success = True,
      stage = 1, proxy_chain = [], description = ''CVE-2024-39717'',
      processed = False\<rparr>"

definition multi_hop_event :: event where
  "multi_hop_event =
     port_scan_event\<lparr>proxy_chain := [''A'', ''B''], destination_ip := ''C'', success := True\<rparr>"

definition one_scan :: timeline where
  "one_scan = the (construct [port_scan_event])"

definition credential_event :: event where
  "credential_event =
     \<lparr>timestamp = 0, severity = 8, category = ''credential_access'',
      attack_type = ''credential_harvesting'',
      source_ip = ''192.168.100.10'', destination_ip = ''192.168.100.50'', success = True,
      stage = 2, proxy_chain = [], description = ''PowerShell credential harvesting'',
      processed = False\<rparr>"

definition one_credential :: timeline where
  "one_credential = the (construct [credential_event])"

definition one_multi_hop :: timeline where
  "one_multi_hop = the (construct [multi_hop_event])"

definition zero_day_first :: timeline where
  "zero_day_first = the (construct [zero_day_event])"

definition two_close_events :: timeline where
  "two_close_events = the (construct [port_scan_event, port_scan_event\<lparr>timestamp := 10\<rparr>])"

subsection \<open>The selection rule in the words of the specification\<close>

text \<open>
  A candidate is an event that is due and not yet dispatched. The rule: a current-stage
  candidate of the last dispatched attack type if there is one, else a current-stage
  candidate if there is one, else any candidate; in each case one whose timestamp no other
  candidate of that group precedes.
\<close>

definition candidate :: "rat \<Rightarrow> timeline \<Rightarrow> nat \<Rightarrow> bool" where
  "candidate now s n \<longleftrightarrow>
     n < length (data s) \<and> of_int (timestamp (data s ! n)) \<le> now \<and> \<not> processed (data s ! n)"





text \<open>The gate of \<^verbatim>\<open>processEvents\<close>: the test that makes it return before selecting.\<close>

definition gateClosed :: "rat \<Rightarrow> timeline \<Rightarrow> bool" where
  "gateClosed now s \<longleftrightarrow> lastEventProcessedTime s \<noteq> 0 \<and> now - lastEventProcessedTime s < 500"

text \<open>The three events of the continuity scenario, in the order the specification lists them.\<close>

definition scenario_events :: "event list" where
  "scenario_events = [port_scan_event, port_scan_event\<lparr>timestamp := 100\<rparr>, zero_day_event]"

definition scenario_start :: timeline where
  "scenario_start = the (construct scenario_events)"

section \<open>Properties\<close>

subsection \<open>Node positions and packet plans\<close>

lemma getNodePosition_Some: "\<exists>p. getNodePosition nm ip = Some p"
  by (simp add: getNodePosition_def split: option.splits prod.splits)

lemma spawnPackets_eq:
  "spawnPackets i a b n s =
     s\<lparr>timers := timers s @ map (\<lambda>k. (wallClock s + k * 200, SpawnPacket i a b (k = 0))) [0..<n]\<rparr>"
  by (induction n) (simp_all add: spawnPackets_def setTimeout_def)

lemmas flow_defs = createPacketFlow_def Let_def spawnPackets_eq highlight_def setTimeout_def

lemma createPacketFlow_spawns:
  assumes "getNodePosition (nodeMap s) (source_ip (data s ! i)) = Some a"
      and "getNodePosition (nodeMap s) (destination_ip (data s ! i)) = Some b"
  shows "pendingSpawns (createPacketFlow i s) =
         pendingSpawns s
         @ map (\<lambda>k. (wallClock s + k * 200, SpawnPacket i a b (k = 0)))
             [0..<packetCount (data s ! i)]"
  using assms by (simp add: pendingSpawns_def flow_defs filter_map comp_def)

lemma hop_positions_append: "hop_positions (xs @ ys) = hop_positions xs @ hop_positions ys"
  by (induction xs rule: hop_positions.induct) simp_all

lemma impact_positions_append: "impact_positions (xs @ ys) = impact_positions xs @ impact_positions ys"
  by (induction xs rule: impact_positions.induct) simp_all

lemma compromised_marks_append: "compromised_marks (xs @ ys) = compromised_marks xs @ compromised_marks ys"
  by (induction xs rule: compromised_marks.induct) simp_all

lemma hopSteps_hops:
  "map Some (hop_positions (hopSteps nm fp i)) =
     (if i < length fp - 1 then [getNodePosition nm (fp ! i)] else [])"
  using getNodePosition_Some [of nm "fp ! i"] getNodePosition_Some [of nm "fp ! (i - 1)"]
  by (auto simp: hopSteps_def)

lemma hopSteps_no_impact:
  "impact_positions (hopSteps nm fp i) = []" "compromised_marks (hopSteps nm fp i) = []"
  using getNodePosition_Some [of nm "fp ! i"] getNodePosition_Some [of nm "fp ! (i - 1)"]
  by (auto simp: hopSteps_def)

lemma hops_concat:
  "map Some (hop_positions (concat (map (hopSteps nm fp) is))) =
     map (\<lambda>i. getNodePosition nm (fp ! i)) (filter (\<lambda>i. i < length fp - 1) is)"
  by (induction "is") (simp_all add: hop_positions_append hopSteps_hops)

lemma no_impact_concat:
  "impact_positions (concat (map (hopSteps nm fp) is)) = []"
  "compromised_marks (concat (map (hopSteps nm fp) is)) = []"
  by (induction "is") (simp_all add: impact_positions_append compromised_marks_append hopSteps_no_impact)

lemma inner_waypoints: "map f (butlast (tl fp)) = map (\<lambda>i. f (fp ! i)) [1..<length fp - 1]"
proof (rule nth_equalityI)
  show "length (map f (butlast (tl fp))) = length (map (\<lambda>i. f (fp ! i)) [1..<length fp - 1])"
    by simp
next
  fix k assume "k < length (map f (butlast (tl fp)))"
  then have k: "k < length fp - 2" by simp
  then have "butlast (tl fp) ! k = fp ! (k + 1)"
    by (simp add: nth_butlast nth_tl)
  moreover from k have "[1..<length fp - 1] ! k = 1 + k"
    by (intro nth_upt) linarith
  moreover from k have "k < length [1..<length fp - 1]"
    by simp
  ultimately show "map f (butlast (tl fp)) ! k = map (\<lambda>i. f (fp ! i)) [1..<length fp - 1] ! k"
    using k by (simp del: upt_Suc)
qed

lemma filter_upt_inner: "filter (\<lambda>i. i < n - Suc 0) [Suc 0..<n] = [Suc 0..<n - Suc 0]"
  by (cases n) (auto simp: filter_id_conv)

lemma animateMultiHop_hops:
  "map Some (hop_positions (animateMultiHop nm e isFirst)) =
     map (getNodePosition nm) (butlast (tl (buildFullPath e)))"
  using getNodePosition_Some [of nm "destination_ip e"]
  by (auto simp: animateMultiHop_def Let_def hop_positions_append hops_concat finalImpact_def
      filter_upt_inner inner_waypoints [simplified])

lemma animateMultiHop_impact:
  "map Some (impact_positions (animateMultiHop nm e isFirst)) =
     (if success e \<and> isFirst then [getNodePosition nm (destination_ip e)] else [])"
  "compromised_marks (animateMultiHop nm e isFirst) =
     (if success e \<and> isFirst then [destination_ip e] else [])"
  using getNodePosition_Some [of nm "destination_ip e"]
  by (auto simp: animateMultiHop_def Let_def impact_positions_append compromised_marks_append
      no_impact_concat finalImpact_def)


lemma packetCount_pos: "1 \<le> packetCount e"
  by (simp add: packetCount_def)

lemma createSinglePacket_flow:
  "activeFlows (createSinglePacket i a b isFirst s) =
     activeFlows s @ [\<lparr>flow_event = i, lifetime = 3, age = 0,
       tween = (if proxy_chain (data s ! i) \<noteq> [] then animateMultiHop (nodeMap s) (data s ! i) isFirst
                else MoveTo b 4 # (if success (data s ! i) \<and> isFirst
                  then [ImpactEffect b, MarkCompromised (destination_ip (data s ! i))] else []))\<rparr>]"
  by (simp add: createSinglePacket_def Let_def)

subsection \<open>Multi-hop traversal\<close>

text \<open>
  Claim C5, as the code has it. For an event with a non-empty \<^verbatim>\<open>proxy_chain\<close>, the waypoint
  list of the packet is the proxy chain, followed by the destination unless the chain
  already contains it. A pulse plays at every waypoint strictly between the first and the
  last one, so the list \<open>[A, B, C]\<close> gives one pulse, at \<open>B\<close> (the claim says two).
  The impact effect and the compromise mark at the destination play once when the event
  succeeded and the packet is the first of its batch, and not at all otherwise.
\<close>

theorem multi_hop_choreography:
  "proxy_chain (data s ! i) \<noteq> [] \<Longrightarrow>
   (let e = data s ! i;
        tw = tween (last (activeFlows (createSinglePacket i a b isFirst s)))
    in buildFullPath e =
         proxy_chain e @ (if destination_ip e \<in> set (proxy_chain e) then [] else [destination_ip e])
     \<and> map Some (hop_positions tw) =
         map (getNodePosition (nodeMap s)) (butlast (tl (buildFullPath e)))
     \<and> map Some (impact_positions tw) =
         (if success e \<and> isFirst then [getNodePosition (nodeMap s) (destination_ip e)] else [])
     \<and> compromised_marks tw = (if success e \<and> isFirst then [destination_ip e] else [])
     \<and> (proxy_chain e = [''A'', ''B''] \<and> destination_ip e = ''C'' \<longrightarrow>
          buildFullPath e = [''A'', ''B'', ''C'']
          \<and> map Some (hop_positions tw) = [getNodePosition (nodeMap s) ''B'']
          \<and> length (hop_positions tw) = 1
          \<and> length (impact_positions tw) = (if success e \<and> isFirst then 1 else 0)))"
proof -
  assume chain: "proxy_chain (data s ! i) \<noteq> []"
  let ?e = "data s ! i"
  let ?tw = "tween (last (activeFlows (createSinglePacket i a b isFirst s)))"
  have tw: "?tw = animateMultiHop (nodeMap s) ?e isFirst"
    using chain by (simp add: createSinglePacket_flow)
  have path: "buildFullPath ?e =
      proxy_chain ?e @ (if destination_ip ?e \<in> set (proxy_chain ?e) then [] else [destination_ip ?e])"
    using chain by (simp add: buildFullPath_def)
  have hops: "map Some (hop_positions ?tw) =
      map (getNodePosition (nodeMap s)) (butlast (tl (buildFullPath ?e)))"
    unfolding tw by (rule animateMultiHop_hops)
  have impact: "map Some (impact_positions ?tw) =
      (if success ?e \<and> isFirst then [getNodePosition (nodeMap s) (destination_ip ?e)] else [])"
    unfolding tw by (rule animateMultiHop_impact)
  have marks: "compromised_marks ?tw = (if success ?e \<and> isFirst then [destination_ip ?e] else [])"
    unfolding tw by (rule animateMultiHop_impact)
  have len_impact: "length (impact_positions ?tw) = (if success ?e \<and> isFirst then 1 else 0)"
    using arg_cong [OF impact, of length] by (simp split: if_splits)
  have abc: "buildFullPath ?e = [''A'', ''B'', ''C'']
      \<and> map Some (hop_positions ?tw) = [getNodePosition (nodeMap s) ''B'']
      \<and> length (hop_positions ?tw) = 1"
    if "proxy_chain ?e = [''A'', ''B'']" "destination_ip ?e = ''C''"
  proof -
    have p: "buildFullPath ?e = [''A'', ''B'', ''C'']"
      using that by (simp add: path)
    have h: "map Some (hop_positions ?tw) = [getNodePosition (nodeMap s) ''B'']"
      using hops by (simp add: p)
    from arg_cong [OF h, of length] have "length (hop_positions ?tw) = 1"
      by simp
    with p h show ?thesis by blast
  qed
  show ?thesis
    unfolding Let_def using path hops impact marks len_impact abc by blast
qed

text \<open>The scenario of the claim: \<^verbatim>\<open>proxy_chain = ["A", "B"]\<close>, \<^verbatim>\<open>destination_ip = "C"\<close>.\<close>

theorem multi_hop_choreography_witness:
  "proxy_chain (data one_multi_hop ! 0) = [''A'', ''B'']
   \<and> destination_ip (data one_multi_hop ! 0) = ''C''
   \<and> success (data one_multi_hop ! 0)
   \<and> buildFullPath (data one_multi_hop ! 0) = [''A'', ''B'', ''C'']
   \<and> length (hop_positions (tween (last (activeFlows
        (createSinglePacket 0 RandomVector3 RandomVector3 True one_multi_hop))))) = 1
   \<and> length (impact_positions (tween (last (activeFlows
        (createSinglePacket 0 RandomVector3 RandomVector3 True one_multi_hop))))) = 1
   \<and> compromised_marks (tween (last (activeFlows
        (createSinglePacket 0 RandomVector3 RandomVector3 True one_multi_hop)))) = [''C'']"
proof -
  have h0: "proxy_chain (data one_multi_hop ! 0) \<noteq> []" by code_simp
  have h1: "proxy_chain (data one_multi_hop ! 0) = [''A'', ''B'']" by code_simp
  have h2: "destination_ip (data one_multi_hop ! 0) = ''C''" by code_simp
  have h3: "success (data one_multi_hop ! 0)" by code_simp
  note t = multi_hop_choreography [OF h0, of RandomVector3 RandomVector3 True, unfolded Let_def]
  from t h1 h2 h3 show ?thesis by simp
qed

text \<open>Claim C5 as stated expects two pulses for the waypoints \<open>[A, B, C]\<close>; the code plays one.\<close>

theorem two_hop_pulses_counterexample:
  "proxy_chain multi_hop_event = [''A'', ''B'']
   \<and> destination_ip multi_hop_event = ''C''
   \<and> buildFullPath multi_hop_event = [''A'', ''B'', ''C'']
   \<and> hop_positions (animateMultiHop createNetworkInfrastructure multi_hop_event True)
       = [RandomVector3]
   \<and> length (hop_positions (animateMultiHop createNetworkInfrastructure multi_hop_event True))
       \<noteq> 2"
  by code_simp




subsection \<open>Packets of a dispatched event\<close>

lemma runCallback_flows:
  "length (activeFlows (runCallback c s)) = length (activeFlows s) + (if is_spawn c then 1 else 0)"
  by (cases c) (simp_all add: followAttack_def createSinglePacket_def Let_def split: option.splits prod.splits)

lemma foldl_runCallback_flows:
  "length (activeFlows (foldl (\<lambda>s' tm. runCallback (snd tm) s') s tms)) =
     length (activeFlows s) + length (filter (\<lambda>tm. is_spawn (snd tm)) tms)"
  by (induction tms arbitrary: s) (simp_all add: runCallback_flows)

lemma elapse_flows:
  "length (activeFlows (elapse ms s)) =
     length (activeFlows s)
     + length (filter (\<lambda>tm. fst tm \<le> wallClock s + ms) (pendingSpawns s))"
proof -
  have "length (filter (\<lambda>tm. is_spawn (snd tm)) (filter (\<lambda>tm. fst tm \<le> wallClock s + ms) (sort_key fst (timers s))))
      = length (filter (\<lambda>tm. fst tm \<le> wallClock s + ms) (pendingSpawns s))"
    by (simp add: filter_sort pendingSpawns_def conj_commute)
  then show ?thesis
    by (simp add: elapse_def Let_def foldl_runCallback_flows)
qed

lemma createPacketFlow_frame:
  "wallClock (createPacketFlow i s) = wallClock s"
  "activeFlows (createPacketFlow i s) = activeFlows s"
  "data (createPacketFlow i s) = data s"
  "packetFlowCalls (createPacketFlow i s) = packetFlowCalls s @ [i]"
  "nodeMap (createPacketFlow i s) = nodeMap s"
  by (simp_all add: flow_defs split: option.splits prod.splits)

lemma dispatched_event_spawns:
  "length (activeFlows s) + 1 \<le> length (activeFlows (elapse ms (createPacketFlow i s)))"
proof -
  obtain a where a: "getNodePosition (nodeMap s) (source_ip (data s ! i)) = Some a"
    using getNodePosition_Some by blast
  obtain b where b: "getNodePosition (nodeMap s) (destination_ip (data s ! i)) = Some b"
    using getNodePosition_Some by blast
  let ?s' = "createPacketFlow i s"
  let ?due = "\<lambda>tm::nat \<times> callback. fst tm \<le> wallClock ?s' + ms"
  have "0 \<in> set [0..<packetCount (data s ! i)]"
    using packetCount_pos [of "data s ! i"] by simp
  then have "(wallClock s + 0 * 200, SpawnPacket i a b (0 = (0::nat)))
      \<in> set (map (\<lambda>k. (wallClock s + k * 200, SpawnPacket i a b (k = 0)))
          [0..<packetCount (data s ! i)])"
    unfolding set_map by (rule imageI)
  then have "(wallClock s, SpawnPacket i a b True) \<in> set (pendingSpawns ?s')"
    unfolding createPacketFlow_spawns [OF a b] by simp
  then have "(wallClock s, SpawnPacket i a b True) \<in> set (filter ?due (pendingSpawns ?s'))"
    by (simp add: createPacketFlow_frame)
  then have "filter ?due (pendingSpawns ?s') \<noteq> []"
    by (metis empty_iff list.set(1))
  then have "1 \<le> length (filter ?due (pendingSpawns ?s'))"
    by (cases "filter ?due (pendingSpawns ?s')") simp_all
  moreover have "length (activeFlows ?s') = length (activeFlows s)"
    by (simp add: createPacketFlow_frame)
  ultimately show ?thesis
    using elapse_flows [of ms ?s'] by linarith
qed

text \<open>
  Claim C10. \<^verbatim>\<open>getNodePosition\<close> returns a position for every identifier string: the
  position of the node registered under the identifier; else that of the first node, in
  registration order, whose first three octets are a prefix of the identifier; else the
  fallback vector. It never returns \<^verbatim>\<open>null\<close> or \<^verbatim>\<open>undefined\<close>, so the guard
  \<^verbatim>\<open>if (!sourcePos || !destPos) return\<close> of \<^verbatim>\<open>createPacketFlow\<close> is never taken: every call
  schedules the packets of the event, at least one, the first of them without delay, and
  once the timers have run there is at least one more flow.
\<close>

theorem node_lookup_total:
  "(\<exists>p. getNodePosition nm ip = Some p)
   \<and> (\<forall>p. map_of nm ip = Some p \<longrightarrow> getNodePosition nm ip = Some p)
   \<and> (\<forall>k p. map_of nm ip = None
         \<and> find (\<lambda>(nodeIp, nodeData). prefix (octets3 nodeIp) ip) nm = Some (k, p)
         \<longrightarrow> getNodePosition nm ip = Some p)
   \<and> (map_of nm ip = None \<and> find (\<lambda>(nodeIp, nodeData). prefix (octets3 nodeIp) ip) nm = None
         \<longrightarrow> getNodePosition nm ip = Some RandomVector3)
   \<and> (\<exists>a b. getNodePosition (nodeMap s) (source_ip (data s ! i)) = Some a
         \<and> getNodePosition (nodeMap s) (destination_ip (data s ! i)) = Some b
         \<and> pendingSpawns (createPacketFlow i s) =
             pendingSpawns s
             @ map (\<lambda>k. (wallClock s + k * 200, SpawnPacket i a b (k = 0)))
                 [0..<packetCount (data s ! i)])
   \<and> 1 \<le> packetCount (data s ! i)
   \<and> length (activeFlows s) + 1 \<le> length (activeFlows (elapse ms (createPacketFlow i s)))"
proof -
  have lookup: "\<exists>p. getNodePosition nm ip = Some p"
    by (rule getNodePosition_Some)
  have hit: "\<forall>p. map_of nm ip = Some p \<longrightarrow> getNodePosition nm ip = Some p"
    by (simp add: getNodePosition_def)
  have partial: "\<forall>k p. map_of nm ip = None
         \<and> find (\<lambda>(nodeIp, nodeData). prefix (octets3 nodeIp) ip) nm = Some (k, p)
         \<longrightarrow> getNodePosition nm ip = Some p"
    by (simp add: getNodePosition_def)
  have fallback: "map_of nm ip = None
         \<and> find (\<lambda>(nodeIp, nodeData). prefix (octets3 nodeIp) ip) nm = None
         \<longrightarrow> getNodePosition nm ip = Some RandomVector3"
    by (simp add: getNodePosition_def)
  obtain a where a: "getNodePosition (nodeMap s) (source_ip (data s ! i)) = Some a"
    using getNodePosition_Some by blast
  obtain b where b: "getNodePosition (nodeMap s) (destination_ip (data s ! i)) = Some b"
    using getNodePosition_Some by blast
  have guard: "\<exists>a b. getNodePosition (nodeMap s) (source_ip (data s ! i)) = Some a
         \<and> getNodePosition (nodeMap s) (destination_ip (data s ! i)) = Some b
         \<and> pendingSpawns (createPacketFlow i s) =
             pendingSpawns s
             @ map (\<lambda>k. (wallClock s + k * 200, SpawnPacket i a b (k = 0)))
                 [0..<packetCount (data s ! i)]"
    using a b createPacketFlow_spawns [OF a b] by blast
  show ?thesis
    using lookup hit partial fallback guard packetCount_pos dispatched_event_spawns
    by blast
qed

theorem node_lookup_total_witness:
  "map_of createNetworkInfrastructure ''10.1.1.10'' = Some (Vector3 400 50 0)
   \<and> getNodePosition createNetworkInfrastructure ''10.1.1.10'' = Some (Vector3 400 50 0)
   \<and> map_of createNetworkInfrastructure ''45.76.128.77'' = None
   \<and> find (\<lambda>(nodeIp, nodeData). prefix (octets3 nodeIp) ''45.76.128.77'')
        createNetworkInfrastructure = Some (''45.76.128.0'', Vector3 (- 1000) 50 0)
   \<and> getNodePosition createNetworkInfrastructure ''45.76.128.77'' = Some (Vector3 (- 1000) 50 0)
   \<and> map_of createNetworkInfrastructure ''Guam'' = None
   \<and> find (\<lambda>(nodeIp, nodeData). prefix (octets3 nodeIp) ''Guam'')
        createNetworkInfrastructure = None
   \<and> getNodePosition createNetworkInfrastructure ''Guam'' = Some RandomVector3
   \<and> length (activeFlows one_scan) + 1
        \<le> length (activeFlows (elapse 0 (createPacketFlow 0 one_scan)))"
proof -
  have h1: "map_of createNetworkInfrastructure ''10.1.1.10'' = Some (Vector3 400 50 0)"
    by code_simp
  have h2: "map_of createNetworkInfrastructure ''45.76.128.77'' = None"
    by code_simp
  have h3: "find (\<lambda>(nodeIp, nodeData). prefix (octets3 nodeIp) ''45.76.128.77'')
        createNetworkInfrastructure = Some (''45.76.128.0'', Vector3 (- 1000) 50 0)"
    by code_simp
  have h4: "map_of createNetworkInfrastructure ''Guam'' = None"
    by code_simp
  have h5: "find (\<lambda>(nodeIp, nodeData). prefix (octets3 nodeIp) ''Guam'')
        createNetworkInfrastructure = None"
    by code_simp
  note t1 = node_lookup_total [of createNetworkInfrastructure "''10.1.1.10''" one_scan 0 0]
  note t2 = node_lookup_total [of createNetworkInfrastructure "''45.76.128.77''" one_scan 0 0]
  note t3 = node_lookup_total [of createNetworkInfrastructure "''Guam''" one_scan 0 0]
  from t1 h1 have c1: "getNodePosition createNetworkInfrastructure ''10.1.1.10'' = Some (Vector3 400 50 0)"
    by blast
  from t2 h2 h3 have c2: "getNodePosition createNetworkInfrastructure ''45.76.128.77'' = Some (Vector3 (- 1000) 50 0)"
    by blast
  from t3 h4 h5 have c3: "getNodePosition createNetworkInfrastructure ''Guam'' = Some RandomVector3"
    by blast
  from t1 have c4: "length (activeFlows one_scan) + 1
        \<le> length (activeFlows (elapse 0 (createPacketFlow 0 one_scan)))"
    by blast
  from h1 h2 h3 h4 h5 c1 c2 c3 c4 show ?thesis by blast
qed

text \<open>
  Claim C6, as the code has it. The tests on \<^verbatim>\<open>attack_type\<close> come first: three packets for
  \<^verbatim>\<open>lotl_discovery\<close> and \<^verbatim>\<open>wmi_lateral_movement\<close>, two for \<^verbatim>\<open>rdp_lateral_movement\<close>; only
  then five for the category \<^verbatim>\<open>credential_access\<close>; one otherwise. Packet \<open>k\<close> of the
  batch is scheduled \<open>k * 200\<close> milliseconds after the dispatch, and only packet 0 is
  created with \<^verbatim>\<open>isFirst\<close>. Each spawn adds one flow for the event; its plan holds the
  impact effect and the compromise mark exactly when the event succeeded and the packet is
  the first.
\<close>

theorem packet_batch:
  "(attack_type e = ''lotl_discovery'' \<or> attack_type e = ''wmi_lateral_movement''
      \<longrightarrow> packetCount e = 3)
   \<and> (attack_type e = ''rdp_lateral_movement'' \<longrightarrow> packetCount e = 2)
   \<and> (category e = ''credential_access''
       \<and> attack_type e \<notin> {''lotl_discovery'', ''wmi_lateral_movement'', ''rdp_lateral_movement''}
      \<longrightarrow> packetCount e = 5)
   \<and> (category e \<noteq> ''credential_access''
       \<and> attack_type e \<notin> {''lotl_discovery'', ''wmi_lateral_movement'', ''rdp_lateral_movement''}
      \<longrightarrow> packetCount e = 1)
   \<and> (\<exists>a b. pendingSpawns (createPacketFlow i s) =
         pendingSpawns s
         @ map (\<lambda>k. (wallClock s + k * 200, SpawnPacket i a b (k = 0)))
             [0..<packetCount (data s ! i)])
   \<and> (let s' = runCallback (SpawnPacket i a b isFirst) s;
           tw = tween (last (activeFlows s'))
       in length (activeFlows s') = length (activeFlows s) + 1
        \<and> flow_event (last (activeFlows s')) = i
        \<and> length (impact_positions tw) = (if success (data s ! i) \<and> isFirst then 1 else 0)
        \<and> compromised_marks tw =
            (if success (data s ! i) \<and> isFirst then [destination_ip (data s ! i)] else []))"
proof -
  have counts: "(attack_type e = ''lotl_discovery'' \<or> attack_type e = ''wmi_lateral_movement''
      \<longrightarrow> packetCount e = 3)
   \<and> (attack_type e = ''rdp_lateral_movement'' \<longrightarrow> packetCount e = 2)
   \<and> (category e = ''credential_access''
       \<and> attack_type e \<notin> {''lotl_discovery'', ''wmi_lateral_movement'', ''rdp_lateral_movement''}
      \<longrightarrow> packetCount e = 5)
   \<and> (category e \<noteq> ''credential_access''
       \<and> attack_type e \<notin> {''lotl_discovery'', ''wmi_lateral_movement'', ''rdp_lateral_movement''}
      \<longrightarrow> packetCount e = 1)"
    by (simp add: packetCount_def)
  obtain p where p: "getNodePosition (nodeMap s) (source_ip (data s ! i)) = Some p"
    using getNodePosition_Some by blast
  obtain q where q: "getNodePosition (nodeMap s) (destination_ip (data s ! i)) = Some q"
    using getNodePosition_Some by blast
  have stagger: "\<exists>a b. pendingSpawns (createPacketFlow i s) =
         pendingSpawns s
         @ map (\<lambda>k. (wallClock s + k * 200, SpawnPacket i a b (k = 0)))
             [0..<packetCount (data s ! i)]"
    using createPacketFlow_spawns [OF p q] by blast
  let ?s' = "runCallback (SpawnPacket i a b isFirst) s"
  let ?tw = "tween (last (activeFlows ?s'))"
  have flows: "length (activeFlows ?s') = length (activeFlows s) + 1"
    by (simp add: createSinglePacket_flow)
  have ev: "flow_event (last (activeFlows ?s')) = i"
    by (simp add: createSinglePacket_flow)
  have impact: "length (impact_positions ?tw) = (if success (data s ! i) \<and> isFirst then 1 else 0)"
  proof (cases "proxy_chain (data s ! i) = []")
    case True
    then show ?thesis by (simp add: createSinglePacket_flow)
  next
    case False
    then have "?tw = animateMultiHop (nodeMap s) (data s ! i) isFirst"
      by (simp add: createSinglePacket_flow)
    then show ?thesis
      using arg_cong [OF animateMultiHop_impact(1) [of "nodeMap s" "data s ! i" isFirst], of length]
      by (simp split: if_splits)
  qed
  have marks: "compromised_marks ?tw =
      (if success (data s ! i) \<and> isFirst then [destination_ip (data s ! i)] else [])"
    by (simp add: createSinglePacket_flow animateMultiHop_impact)
  show ?thesis
    unfolding Let_def using counts stagger flows ev impact marks by blast
qed

theorem packet_batch_witness:
  "category credential_event = ''credential_access''
   \<and> attack_type credential_event
       \<notin> {''lotl_discovery'', ''wmi_lateral_movement'', ''rdp_lateral_movement''}
   \<and> packetCount credential_event = 5
   \<and> attack_type (credential_event\<lparr>attack_type := ''rdp_lateral_movement''\<rparr>)
       = ''rdp_lateral_movement''
   \<and> packetCount (credential_event\<lparr>attack_type := ''rdp_lateral_movement''\<rparr>) = 2
   \<and> attack_type (credential_event\<lparr>attack_type := ''wmi_lateral_movement''\<rparr>)
       = ''wmi_lateral_movement''
   \<and> packetCount (credential_event\<lparr>attack_type := ''wmi_lateral_movement''\<rparr>) = 3
   \<and> category port_scan_event \<noteq> ''credential_access''
   \<and> attack_type port_scan_event
       \<notin> {''lotl_discovery'', ''wmi_lateral_movement'', ''rdp_lateral_movement''}
   \<and> packetCount port_scan_event = 1
   \<and> pendingSpawns (createPacketFlow 0 one_credential) =
        [(0, SpawnPacket 0 (Vector3 (- 200) 50 0) (Vector3 200 100 0) True),
         (200, SpawnPacket 0 (Vector3 (- 200) 50 0) (Vector3 200 100 0) False),
         (400, SpawnPacket 0 (Vector3 (- 200) 50 0) (Vector3 200 100 0) False),
         (600, SpawnPacket 0 (Vector3 (- 200) 50 0) (Vector3 200 100 0) False),
         (800, SpawnPacket 0 (Vector3 (- 200) 50 0) (Vector3 200 100 0) False)]
   \<and> success (data one_credential ! 0)
   \<and> length (impact_positions (tween (last (activeFlows (runCallback
        (SpawnPacket 0 (Vector3 (- 200) 50 0) (Vector3 200 100 0) True) one_credential))))) = 1
   \<and> length (impact_positions (tween (last (activeFlows (runCallback
        (SpawnPacket 0 (Vector3 (- 200) 50 0) (Vector3 200 100 0) False) one_credential))))) = 0"
proof -
  have h1: "category credential_event = ''credential_access''" by code_simp
  have h2: "attack_type credential_event
       \<notin> {''lotl_discovery'', ''wmi_lateral_movement'', ''rdp_lateral_movement''}" by code_simp
  have h3: "attack_type (credential_event\<lparr>attack_type := ''rdp_lateral_movement''\<rparr>)
       = ''rdp_lateral_movement''" by code_simp
  have h4: "attack_type (credential_event\<lparr>attack_type := ''wmi_lateral_movement''\<rparr>)
       = ''wmi_lateral_movement''" by code_simp
  have h5: "category port_scan_event \<noteq> ''credential_access''" by code_simp
  have h6: "attack_type port_scan_event
       \<notin> {''lotl_discovery'', ''wmi_lateral_movement'', ''rdp_lateral_movement''}" by code_simp
  have h7: "success (data one_credential ! 0)" by code_simp
  have spawns: "pendingSpawns (createPacketFlow 0 one_credential) =
        [(0, SpawnPacket 0 (Vector3 (- 200) 50 0) (Vector3 200 100 0) True),
         (200, SpawnPacket 0 (Vector3 (- 200) 50 0) (Vector3 200 100 0) False),
         (400, SpawnPacket 0 (Vector3 (- 200) 50 0) (Vector3 200 100 0) False),
         (600, SpawnPacket 0 (Vector3 (- 200) 50 0) (Vector3 200 100 0) False),
         (800, SpawnPacket 0 (Vector3 (- 200) 50 0) (Vector3 200 100 0) False)]"
    by code_simp
  note t1 = packet_batch [of credential_event 0 one_credential
      "Vector3 (- 200) 50 0" "Vector3 200 100 0" True, unfolded Let_def]
  note t2 = packet_batch [of "credential_event\<lparr>attack_type := ''rdp_lateral_movement''\<rparr>"
      0 one_credential "Vector3 (- 200) 50 0" "Vector3 200 100 0" False, unfolded Let_def]
  note t3 = packet_batch [of "credential_event\<lparr>attack_type := ''wmi_lateral_movement''\<rparr>"
      0 one_credential "Vector3 (- 200) 50 0" "Vector3 200 100 0" False, unfolded Let_def]
  note t4 = packet_batch [of port_scan_event
      0 one_credential "Vector3 (- 200) 50 0" "Vector3 200 100 0" False, unfolded Let_def]
  from t1 h1 h2 have c1: "packetCount credential_event = 5" by blast
  from t2 h3 have c2: "packetCount (credential_event\<lparr>attack_type := ''rdp_lateral_movement''\<rparr>) = 2"
    by blast
  from t3 h4 have c3: "packetCount (credential_event\<lparr>attack_type := ''wmi_lateral_movement''\<rparr>) = 3"
    by blast
  from t4 h5 h6 have c4: "packetCount port_scan_event = 1" by blast
  from t1 h7 have c5: "length (impact_positions (tween (last (activeFlows (runCallback
        (SpawnPacket 0 (Vector3 (- 200) 50 0) (Vector3 200 100 0) True) one_credential))))) = 1"
    by simp
  from t2 have c6: "length (impact_positions (tween (last (activeFlows (runCallback
        (SpawnPacket 0 (Vector3 (- 200) 50 0) (Vector3 200 100 0) False) one_credential))))) = 0"
    by simp
  from h1 h2 h3 h4 h5 h6 h7 spawns c1 c2 c3 c4 c5 c6 show ?thesis by blast
qed

text \<open>
  Claim C6 as stated gives five packets to every \<^verbatim>\<open>credential_access\<close> event; one whose
  \<^verbatim>\<open>attack_type\<close> is \<^verbatim>\<open>lotl_discovery\<close> gets three.
\<close>

theorem credential_access_count_counterexample:
  "category (credential_event\<lparr>attack_type := ''lotl_discovery''\<rparr>) = ''credential_access''
   \<and> packetCount (credential_event\<lparr>attack_type := ''lotl_discovery''\<rparr>) = 3
   \<and> packetCount (credential_event\<lparr>attack_type := ''lotl_discovery''\<rparr>) \<noteq> 5"
  by code_simp




subsection \<open>What a dispatch leaves alone\<close>

lemma followAttack_eq: "followAttack i s = s\<lparr>camera := FollowEvent i\<rparr>"
  using getNodePosition_Some [of "nodeMap s" "source_ip (data s ! i)"]
    getNodePosition_Some [of "nodeMap s" "destination_ip (data s ! i)"]
  by (auto simp: followAttack_def)

lemma createPacketFlow_clock:
  "currentTime (createPacketFlow i s) = currentTime s"
  "playbackSpeed (createPacketFlow i s) = playbackSpeed s"
  "duration (createPacketFlow i s) = duration s"
  "startTime (createPacketFlow i s) = startTime s"
  "currentStage (createPacketFlow i s) = currentStage s"
  by (simp_all add: flow_defs split: option.splits prod.splits)


lemma zeroDayBox_frame:
  "currentTime (zeroDayBox i s) = currentTime s"
  "playbackSpeed (zeroDayBox i s) = playbackSpeed s"
  "duration (zeroDayBox i s) = duration s"
  "startTime (zeroDayBox i s) = startTime s"
  "currentStage (zeroDayBox i s) = currentStage s"
  "activeFlows (zeroDayBox i s) = activeFlows s"
  "wallClock (zeroDayBox i s) = wallClock s"
  "data (zeroDayBox i s) = data s"
  "packetFlowCalls (zeroDayBox i s) = packetFlowCalls s"
  "nodeMap (zeroDayBox i s) = nodeMap s"
  by (simp_all add: zeroDayBox_def highlight_def setTimeout_def)


lemma cameraFollow_frame:
  "currentTime (cameraFollow i s) = currentTime s"
  "playbackSpeed (cameraFollow i s) = playbackSpeed s"
  "duration (cameraFollow i s) = duration s"
  "startTime (cameraFollow i s) = startTime s"
  "currentStage (cameraFollow i s) = currentStage s"
  "activeFlows (cameraFollow i s) = activeFlows s"
  "wallClock (cameraFollow i s) = wallClock s"
  "data (cameraFollow i s) = data s"
  "packetFlowCalls (cameraFollow i s) = packetFlowCalls s"
  "nodeMap (cameraFollow i s) = nodeMap s"
  "isPlaying (cameraFollow i s) = isPlaying s"
  by (simp_all add: cameraFollow_def Let_def followAttack_eq setTimeout_def)

lemma markProcessed_frame:
  "currentTime (markProcessed i now s) = currentTime s"
  "playbackSpeed (markProcessed i now s) = playbackSpeed s"
  "duration (markProcessed i now s) = duration s"
  "startTime (markProcessed i now s) = startTime s"
  "currentStage (markProcessed i now s) = currentStage s"
  "activeFlows (markProcessed i now s) = activeFlows s"
  "wallClock (markProcessed i now s) = wallClock s"
  "packetFlowCalls (markProcessed i now s) = packetFlowCalls s"
  "nodeMap (markProcessed i now s) = nodeMap s"
  "isPlaying (markProcessed i now s) = isPlaying s"
  "data (markProcessed i now s) = (data s)[i := (data s ! i)\<lparr>processed := True\<rparr>]"
  by (simp_all add: markProcessed_def)

lemma dispatch_frame:
  "currentTime (dispatch i now s) = currentTime s"
  "playbackSpeed (dispatch i now s) = playbackSpeed s"
  "duration (dispatch i now s) = duration s"
  "startTime (dispatch i now s) = startTime s"
  "currentStage (dispatch i now s) = currentStage s"
  "activeFlows (dispatch i now s) = activeFlows s"
  "wallClock (dispatch i now s) = wallClock s"
  "packetFlowCalls (dispatch i now s) = packetFlowCalls s @ [i]"
  "data (dispatch i now s) = (data s)[i := (data s ! i)\<lparr>processed := True\<rparr>]"
  by (simp_all add: dispatch_def cameraFollow_frame zeroDayBox_frame createPacketFlow_clock
      createPacketFlow_frame markProcessed_frame)




subsection \<open>Playback clock\<close>

lemma update_paused: "\<not> isPlaying s \<Longrightarrow> update d s = s"
  by (simp add: update_def)





lemma run_Nil: "run [] s = s"
  by (simp add: run_def)

lemma run_Cons: "run (a # acts) s = run acts (step a s)"
  by (simp add: run_def)

lemma run_append: "run (xs @ ys) s = run ys (run xs s)"
  by (simp add: run_def)










subsection \<open>Info boxes, the play button and restart\<close>


lemma box_zIndex_cleaned: "box_zIndex b \<in> {2300, 2400, 2500, 2999, 3000}"
  by (cases b) simp_all





text \<open>
  Claim C8, as the code has it. \<^verbatim>\<open>togglePlayback\<close> negates \<^verbatim>\<open>isPlaying\<close> in every state and
  touches nothing else; there is no pause lock, so right after an info box is shown it
  turns playback on again.
\<close>

theorem togglePlayback_flips:
  "isPlaying (togglePlayback s) = (\<not> isPlaying s)
   \<and> isPlaying (togglePlayback (highlight b s))
   \<and> infoBoxes (togglePlayback (highlight b s)) = infoBoxes s @ [b]
   \<and> infoBoxes (togglePlayback s) = infoBoxes s
   \<and> timers (togglePlayback s) = timers s
   \<and> currentTime (togglePlayback s) = currentTime s
   \<and> togglePlayback (togglePlayback s) = s"
  by (simp add: togglePlayback_def highlight_def setTimeout_def)

text \<open>
  Claim C8 as stated: the flag is not flipped while an info box holds the pause. With the
  zero-day box up, \<^verbatim>\<open>togglePlayback\<close> flips it from false to true.
\<close>

theorem toggle_under_info_box_counterexample:
  "infoBoxes (run [Update (1 / 60)] zero_day_first) = [ZeroDay]
   \<and> \<not> isPlaying (run [Update (1 / 60)] zero_day_first)
   \<and> infoBoxes (run [Update (1 / 60), TogglePlayback] zero_day_first) = [ZeroDay]
   \<and> isPlaying (run [Update (1 / 60), TogglePlayback] zero_day_first)"
  by code_simp


lemma cleanup_removes_all: "filter (\<lambda>b. box_zIndex b \<notin> {2300, 2400, 2500, 2999, 3000}) bs = []"
  using box_zIndex_cleaned by (induction bs) simp_all

lemma cleanupAllInfoBoxes_eq: "cleanupAllInfoBoxes s = s\<lparr>infoBoxes := []\<rparr>"
  unfolding cleanupAllInfoBoxes_def cleanup_removes_all by (rule refl)

text \<open>
  Claim C9, as the code has it. From any state \<^verbatim>\<open>restart\<close> gives simulated time 0, playback
  on, stage 0, every event unprocessed, no flow and no info box, the last dispatch time and
  type and the shown-flags cleared, and the camera at its initial pose; the speed is kept.
  A second \<^verbatim>\<open>restart\<close> changes nothing more. The pending \<^verbatim>\<open>setTimeout\<close> callbacks are left
  as they are: the program has no \<^verbatim>\<open>clearTimeout\<close>.
\<close>

theorem restart_resets:
  "currentTime (restart s) = 0
   \<and> isPlaying (restart s)
   \<and> currentStage (restart s) = 0
   \<and> data (restart s) = map (\<lambda>e. e\<lparr>processed := False\<rparr>) (data s)
   \<and> map processed (data (restart s)) = replicate (length (data s)) False
   \<and> activeFlows (restart s) = []
   \<and> infoBoxes (restart s) = []
   \<and> lastEventProcessedTime (restart s) = 0
   \<and> lastProcessedEventType (restart s) = None
   \<and> lastFollowedStage (restart s) = None
   \<and> \<not> rdpExplained (restart s) \<and> \<not> cveExplained (restart s)
   \<and> \<not> criticalAccessShown (restart s) \<and> \<not> ntdsShown (restart s) \<and> \<not> otShown (restart s)
   \<and> \<not> gsapPaused (restart s)
   \<and> camera (restart s) = InitialPose
   \<and> playbackSpeed (restart s) = playbackSpeed s
   \<and> timers (restart s) = timers s
   \<and> restart (restart s) = restart s"
proof -
  have flags: "map processed (map (\<lambda>e. e\<lparr>processed := False\<rparr>) (data s))
      = replicate (length (data s)) False"
    by (induction "data s" arbitrary: s) (simp_all add: map_replicate_const comp_def)
  have twice: "restart (restart s) = restart s"
    by (simp add: restart_def cleanupAllInfoBoxes_eq comp_def)
  show ?thesis
    using flags twice
    by (simp add: restart_def cleanupAllInfoBoxes_eq)
qed

text \<open>
  Claim C9 as stated: \<^verbatim>\<open>restart\<close> cancels every pending callback. A packet spawn scheduled
  by a dispatch before the restart is still pending after it and adds a flow when it runs;
  the resume closure of an info box shown before the restart turns playback on again after
  the user has paused it.
\<close>

theorem callbacks_survive_restart_counterexample:
  "activeFlows (run [Update (1 / 60), Restart] one_scan) = []
   \<and> timers (run [Update (1 / 60), Restart] one_scan)
       = [(0, SpawnPacket 0 (Vector3 (- 1000) 50 0) (Vector3 (- 200) 50 0) True)]
   \<and> length (activeFlows (run [Update (1 / 60), Restart, Elapse 0] one_scan)) = 1
   \<and> \<not> isPlaying (run [Update (1 / 60), Restart, TogglePlayback] zero_day_first)
   \<and> isPlaying (run [Update (1 / 60), Restart, TogglePlayback, Elapse 7000] zero_day_first)"
  by code_simp

subsection \<open>The interval of the event gate\<close>

text \<open>
  Claim C2 asks for 500 ms of real time between two dispatches. \<^verbatim>\<open>update\<close> hands
  \<^verbatim>\<open>processEvents\<close> the simulated timestamp \<^verbatim>\<open>this.startTime + this.currentTime\<close>, and the
  gate compares simulated timestamps: at speed 1 a frame of 16 ms is 5760 simulated
  milliseconds. Two events 10 ms apart are dispatched by two consecutive frames, 16 ms of
  real time after one another.
\<close>

theorem gate_counts_simulated_time:
  "packetFlowCalls (run [Elapse 16, Update (2 / 125)] two_close_events) = [0]
   \<and> wallClock (run [Elapse 16, Update (2 / 125)] two_close_events) = 16
   \<and> packetFlowCalls (run [Elapse 16, Update (2 / 125), Elapse 16, Update (2 / 125)] two_close_events)
       = [0, 1]
   \<and> wallClock (run [Elapse 16, Update (2 / 125), Elapse 16, Update (2 / 125)] two_close_events) = 32
   \<and> map timestamp (data two_close_events) = [0, 10]"
  by code_simp




subsection \<open>Selection of the next event\<close>



lemma availableEvents_set:
  "set (availableEvents now s) = {n. candidate now s n}"
  by (auto simp: availableEvents_def candidate_def)







lemma selectNext_candidate: "selectNext now s = Some n \<Longrightarrow> candidate now s n"
proof -
  assume sel: "selectNext now s = Some n"
  have sub: "set (sameTypeEvents now s) \<subseteq> set (availableEvents now s)"
    "set (currentStageEvents now s) \<subseteq> set (availableEvents now s)"
    by (auto simp: sameTypeEvents_def currentStageEvents_def)
  from sel have "n \<in> set (availableEvents now s) \<or> n \<in> set (currentStageEvents now s)
      \<or> n \<in> set (sameTypeEvents now s)"
    by (auto simp: selectNext_def split: list.splits)
  with sub show ?thesis using availableEvents_set [of now s] by auto
qed


subsection \<open>What a step does to the events\<close>

lemma runCallback_data:
  "data (runCallback c s) = data s"
  "packetFlowCalls (runCallback c s) = packetFlowCalls s"
  by (cases c; simp add: followAttack_eq createSinglePacket_def Let_def)+

lemma foldl_runCallback_data:
  "data (foldl (\<lambda>s' tm. runCallback (snd tm) s') s tms) = data s"
  "packetFlowCalls (foldl (\<lambda>s' tm. runCallback (snd tm) s') s tms) = packetFlowCalls s"
  by (induction tms arbitrary: s) (simp_all add: runCallback_data)

lemma elapse_data:
  "data (elapse ms s) = data s"
  "packetFlowCalls (elapse ms s) = packetFlowCalls s"
  by (simp_all add: elapse_def Let_def foldl_runCallback_data)

lemma processEvents_effect:
  "processEvents now s = s
   \<or> (\<exists>i. candidate now s i \<and> selectNext now s = Some i \<and> \<not> gateClosed now s
         \<and> processEvents now s = dispatch i now s)"
  using selectNext_candidate [of now s]
  by (auto simp: processEvents_def gateClosed_def split: option.splits)

lemma update_unfold:
  "isPlaying s \<Longrightarrow>
     \<exists>s3 now. update d s = updateFlows d (processEvents now s3)
       \<and> data s3 = data s \<and> packetFlowCalls s3 = packetFlowCalls s"
  by (auto simp: update_def Let_def onStageChange_def)

lemma update_effect:
  "(data (update d s) = data s \<and> packetFlowCalls (update d s) = packetFlowCalls s)
   \<or> (\<exists>i<length (data s). \<not> processed (data s ! i)
         \<and> data (update d s) = (data s)[i := (data s ! i)\<lparr>processed := True\<rparr>]
         \<and> packetFlowCalls (update d s) = packetFlowCalls s @ [i])"
proof (cases "isPlaying s")
  case False
  then show ?thesis by (simp add: update_paused)
next
  case True
  then obtain s3 now where u: "update d s = updateFlows d (processEvents now s3)"
    and d3: "data s3 = data s" and p3: "packetFlowCalls s3 = packetFlowCalls s"
    using update_unfold by blast
  from processEvents_effect [of now s3] show ?thesis
  proof
    assume "processEvents now s3 = s3"
    then show ?thesis using u d3 p3 by (simp add: updateFlows_def)
  next
    assume "\<exists>i. candidate now s3 i \<and> selectNext now s3 = Some i \<and> \<not> gateClosed now s3
        \<and> processEvents now s3 = dispatch i now s3"
    then obtain i where c: "candidate now s3 i" and p: "processEvents now s3 = dispatch i now s3"
      by blast
    from c d3 have "i < length (data s)" "\<not> processed (data s ! i)"
      by (simp_all add: candidate_def)
    moreover have "data (update d s) = (data s)[i := (data s ! i)\<lparr>processed := True\<rparr>]"
      using u p d3 by (simp add: updateFlows_def dispatch_frame)
    moreover have "packetFlowCalls (update d s) = packetFlowCalls s @ [i]"
      using u p p3 by (simp add: updateFlows_def dispatch_frame)
    ultimately show ?thesis by blast
  qed
qed

lemma step_effect:
  assumes "a \<noteq> Restart"
  shows "(data (step a s) = data s \<and> packetFlowCalls (step a s) = packetFlowCalls s)
   \<or> (\<exists>i<length (data s). \<not> processed (data s ! i)
         \<and> data (step a s) = (data s)[i := (data s ! i)\<lparr>processed := True\<rparr>]
         \<and> packetFlowCalls (step a s) = packetFlowCalls s @ [i])"
proof (cases a)
  case (Update d)
  then show ?thesis using update_effect [of d s] by simp
next
  case (Elapse ms)
  then show ?thesis by (simp add: elapse_data)
next
  case TogglePlayback
  then show ?thesis by (simp add: togglePlayback_def)
next
  case (SetSpeed v)
  then show ?thesis by (simp add: setSpeed_def)
next
  case Restart
  with assms show ?thesis by simp
qed

lemma flag_update_timestamps:
  "map timestamp (xs[i := (xs ! i)\<lparr>processed := True\<rparr>]) = map timestamp xs"
  by (cases "i < length xs") (simp_all add: map_update list_update_same_conv list_update_beyond)

lemma step_timestamps: "map timestamp (data (step a s)) = map timestamp (data s)"
proof (cases "a = Restart")
  case True
  then show ?thesis by (simp add: restart_def cleanupAllInfoBoxes_eq comp_def)
next
  case False
  from step_effect [OF this, of s] show ?thesis
    by (auto simp: flag_update_timestamps)
qed

lemma run_timestamps: "map timestamp (data (run acts s)) = map timestamp (data s)"
  by (induction acts arbitrary: s) (simp_all add: run_Nil run_Cons step_timestamps)







lemma step_length: "length (data (step a s)) = length (data s)"
  using arg_cong [OF step_timestamps [of a s], of length] by simp

lemma run_length: "length (data (run acts s)) = length (data s)"
  using arg_cong [OF run_timestamps [of acts s], of length] by simp

lemma run_dispatches:
  "Restart \<notin> set acts \<Longrightarrow>
     \<exists>new. packetFlowCalls (run acts s) = packetFlowCalls s @ new
       \<and> distinct new
       \<and> (\<forall>i<length (data s).
             processed (data (run acts s) ! i) \<longleftrightarrow> processed (data s ! i) \<or> i \<in> set new)
       \<and> (\<forall>i\<in>set new. i < length (data s) \<and> \<not> processed (data s ! i))"
proof (induction acts arbitrary: s)
  case Nil
  show ?case by (rule exI [of _ "[]"]) (simp add: run_Nil)
next
  case (Cons a acts)
  then have a: "a \<noteq> Restart" and rest: "Restart \<notin> set acts" by auto
  let ?s' = "step a s"
  from Cons.IH [OF rest, of ?s'] obtain new where
    tr: "packetFlowCalls (run acts ?s') = packetFlowCalls ?s' @ new" and
    dn: "distinct new" and
    fl: "\<forall>i<length (data ?s').
          processed (data (run acts ?s') ! i) \<longleftrightarrow> processed (data ?s' ! i) \<or> i \<in> set new" and
    nw: "\<forall>i\<in>set new. i < length (data ?s') \<and> \<not> processed (data ?s' ! i)"
    by blast
  have len: "length (data ?s') = length (data s)" by (rule step_length)
  from step_effect [OF a, of s] show ?case
  proof
    assume same: "data ?s' = data s \<and> packetFlowCalls ?s' = packetFlowCalls s"
    show ?thesis
      using tr dn fl nw same by (intro exI [of _ new]) (simp add: run_Cons)
  next
    assume "\<exists>i<length (data s). \<not> processed (data s ! i)
        \<and> data ?s' = (data s)[i := (data s ! i)\<lparr>processed := True\<rparr>]
        \<and> packetFlowCalls ?s' = packetFlowCalls s @ [i]"
    then obtain i where i: "i < length (data s)" "\<not> processed (data s ! i)"
      and d': "data ?s' = (data s)[i := (data s ! i)\<lparr>processed := True\<rparr>]"
      and p': "packetFlowCalls ?s' = packetFlowCalls s @ [i]"
      by blast
    have flag': "processed (data ?s' ! j) \<longleftrightarrow> processed (data s ! j) \<or> j = i"
      if "j < length (data s)" for j
      using that i by (cases "j = i") (simp_all add: d')
    have fresh: "i \<notin> set new"
    proof
      assume "i \<in> set new"
      with nw have "\<not> processed (data ?s' ! i)" by blast
      with flag' [OF i(1)] show False by simp
    qed
    have "packetFlowCalls (run (a # acts) s) = packetFlowCalls s @ (i # new)"
      by (simp add: run_Cons tr p')
    moreover have "distinct (i # new)"
      using dn fresh by simp
    moreover have "\<forall>j<length (data s).
        processed (data (run (a # acts) s) ! j) \<longleftrightarrow> processed (data s ! j) \<or> j \<in> set (i # new)"
      using fl flag' len by (auto simp: run_Cons)
    moreover have "\<forall>j\<in>set (i # new). j < length (data s) \<and> \<not> processed (data s ! j)"
      using nw i flag' len by auto
    ultimately show ?thesis by blast
  qed
qed

subsection \<open>Dispatch uniqueness\<close>

text \<open>
  Claim C4. Take any state and any sequence of frames, timer runs, play-button presses and
  speed changes without a restart. The events handed to \<^verbatim>\<open>createPacketFlow\<close> during the
  run are pairwise different, each was unprocessed at the start, and the events processed
  at the end are exactly those processed at the start and those handed over: a flag never
  goes back to false, so it goes from false to true at most once. If the trace of the
  events handed over so far has no repetition and holds only processed events, as it does
  from the construction on, it has no repetition at the end. One call of \<^verbatim>\<open>update\<close> hands
  over at most one event and changes at most one element of the data.
\<close>

theorem dispatch_once:
  assumes "Restart \<notin> set acts"
  shows "\<exists>new. packetFlowCalls (run acts s) = packetFlowCalls s @ new
       \<and> distinct new
       \<and> length (data (run acts s)) = length (data s)
       \<and> (\<forall>i<length (data s).
             processed (data (run acts s) ! i) \<longleftrightarrow> processed (data s ! i) \<or> i \<in> set new)
       \<and> (\<forall>i\<in>set new. i < length (data s) \<and> \<not> processed (data s ! i))
       \<and> (\<forall>k. \<forall>i<length (data s).
             processed (data (run (take k acts) s) ! i) \<longrightarrow> processed (data (run acts s) ! i))
       \<and> (distinct (packetFlowCalls s)
            \<and> (\<forall>i\<in>set (packetFlowCalls s). i < length (data s) \<and> processed (data s ! i))
           \<longrightarrow> distinct (packetFlowCalls (run acts s)))
       \<and> length (packetFlowCalls (update d s)) \<le> length (packetFlowCalls s) + 1
       \<and> (\<exists>i. \<forall>j. j \<noteq> i \<longrightarrow> data (update d s) ! j = data s ! j)"
proof -
  from run_dispatches [OF assms, of s] obtain new where
    tr: "packetFlowCalls (run acts s) = packetFlowCalls s @ new" and
    dn: "distinct new" and
    fl: "\<forall>i<length (data s).
          processed (data (run acts s) ! i) \<longleftrightarrow> processed (data s ! i) \<or> i \<in> set new" and
    nw: "\<forall>i\<in>set new. i < length (data s) \<and> \<not> processed (data s ! i)"
    by blast
  have stays: "processed (data (run acts s) ! i)"
    if "i < length (data s)" "processed (data (run (take k acts) s) ! i)" for k i
  proof -
    let ?m = "run (take k acts) s"
    have "Restart \<notin> set (drop k acts)"
      using assms by (meson in_set_dropD)
    from run_dispatches [OF this, of ?m] obtain new' where
      "\<forall>i<length (data ?m).
          processed (data (run (drop k acts) ?m) ! i) \<longleftrightarrow> processed (data ?m ! i) \<or> i \<in> set new'"
      by blast
    moreover have "run (drop k acts) ?m = run acts s"
      using run_append [of "take k acts" "drop k acts" s] by simp
    ultimately show ?thesis
      using that by (simp add: run_length)
  qed
  have tick: "length (packetFlowCalls (update d s)) \<le> length (packetFlowCalls s) + 1"
    using update_effect [of d s] by auto
  have one: "\<exists>i. \<forall>j. j \<noteq> i \<longrightarrow> data (update d s) ! j = data s ! j"
    using update_effect [of d s] by (auto simp: nth_list_update)
  have whole: "distinct (packetFlowCalls (run acts s))"
    if "distinct (packetFlowCalls s)"
       "\<forall>i\<in>set (packetFlowCalls s). i < length (data s) \<and> processed (data s ! i)"
  proof -
    have "set (packetFlowCalls s) \<inter> set new = {}"
      using that(2) nw by blast
    then show ?thesis
      using that(1) dn by (simp add: tr)
  qed
  show ?thesis
    using tr dn fl nw stays whole tick one run_length [of acts s] by blast
qed

theorem dispatch_once_witness:
  "Restart \<notin> set [Update (1 / 60), Elapse 16, Update (1 / 60), TogglePlayback, Elapse 7000,
       SetSpeed 10, Update (1 / 60), Update 1]
   \<and> packetFlowCalls scenario_start = []
   \<and> map processed (data scenario_start) = [False, False, False]
   \<and> packetFlowCalls (run [Update (1 / 60), Elapse 16, Update (1 / 60), TogglePlayback,
        Elapse 7000, SetSpeed 10, Update (1 / 60), Update 1] scenario_start) = [0, 1, 2]
   \<and> distinct (packetFlowCalls (run [Update (1 / 60), Elapse 16, Update (1 / 60), TogglePlayback,
        Elapse 7000, SetSpeed 10, Update (1 / 60), Update 1] scenario_start))
   \<and> map processed (data (run [Update (1 / 60), Elapse 16, Update (1 / 60), TogglePlayback,
        Elapse 7000, SetSpeed 10, Update (1 / 60), Update 1] scenario_start)) = [True, True, True]"
proof -
  let ?acts = "[Update (1 / 60), Elapse 16, Update (1 / 60), TogglePlayback, Elapse 7000,
       SetSpeed 10, Update (1 / 60), Update 1]"
  have h: "Restart \<notin> set ?acts" by simp
  have e: "packetFlowCalls scenario_start = []" by code_simp
  have f: "map processed (data scenario_start) = [False, False, False]" by code_simp
  have r: "packetFlowCalls (run ?acts scenario_start) = [0, 1, 2]" by code_simp
  have g: "map processed (data (run ?acts scenario_start)) = [True, True, True]" by code_simp
  from dispatch_once [OF h, of scenario_start 0] obtain new where
    "packetFlowCalls (run ?acts scenario_start) = packetFlowCalls scenario_start @ new"
    "distinct new"
    by blast
  with e have d: "distinct (packetFlowCalls (run ?acts scenario_start))" by simp
  from h e f r d g show ?thesis by blast
qed


end
